theory Spec2Isabelle
  imports Complex_Main "HOL-Library.List_Lexorder" "HOL-Library.Char_ord"
begin

section \<open>Errors and array primitives\<close>

text \<open>
  Python exceptions are values of type \<open>error\<close>; a computation that may raise has type
  \<open>error + 'a\<close>, with \<open>Inl\<close> for the exception.  Floating-point numbers are
  idealised as \<open>real\<close>, unix seconds are \<open>int\<close>.
\<close>

datatype error = IndexError | ValueError | TypeError

definition bind_result :: "error + 'a \<Rightarrow> ('a \<Rightarrow> error + 'b) \<Rightarrow> error + 'b" where
  "bind_result m f = (case m of Inl e \<Rightarrow> Inl e | Inr x \<Rightarrow> f x)"

text \<open>A vectorised operation: the first element that raises ends the whole operation.\<close>

fun map_result :: "('a \<Rightarrow> error + 'b) \<Rightarrow> 'a list \<Rightarrow> error + 'b list" where
  "map_result f [] = Inr []"
| "map_result f (x # xs) =
     bind_result (f x) (\<lambda>y. bind_result (map_result f xs) (\<lambda>ys. Inr (y # ys)))"

text \<open>\<open>xs[i]\<close> for a non-negative index, and \<open>xs[js]\<close> for an array of such indices.\<close>

definition getitem :: "'a list \<Rightarrow> nat \<Rightarrow> error + 'a" where
  "getitem xs i = (if i < length xs then Inr (xs ! i) else Inl IndexError)"

definition getitems :: "'a list \<Rightarrow> nat list \<Rightarrow> error + 'a list" where
  "getitems xs js = map_result (getitem xs) js"

text \<open>\<open>numpy.where(ts == t)[0]\<close>: the indices holding \<open>t\<close>, in increasing order.\<close>

definition numpy_where_eq :: "int list \<Rightarrow> int \<Rightarrow> nat list" where
  "numpy_where_eq ts t = filter (\<lambda>j. ts ! j = t) [0..<length ts]"

text \<open>\<open>numpy.min\<close> and \<open>numpy.argmin\<close> raise ValueError on an empty array;
  \<open>argmin\<close> returns the first index that holds the minimum.\<close>

fun numpy_min :: "real list \<Rightarrow> error + real" where
  "numpy_min [] = Inl ValueError"
| "numpy_min (d # ds) = Inr (fold min ds d)"

fun numpy_argmin :: "real list \<Rightarrow> error + nat" where
  "numpy_argmin [] = Inl ValueError"
| "numpy_argmin [d] = Inr 0"
| "numpy_argmin (d # e # ds) =
     (if d \<le> fold min ds e then Inr 0
      else bind_result (numpy_argmin (e # ds)) (\<lambda>k. Inr (Suc k)))"

section \<open>Matching CNN examples to SHIPS examples\<close>

text \<open>
  The two prediction dictionaries, with the keys that \<open>_match_examples\<close> reads.  Both are
  extensible records: the dictionaries hold further keys (class probabilities, cyclone
  IDs) that the function never reads.
\<close>

record prediction_dict =
  p_init_times :: "int list"
  p_storm_latitudes :: "real list"
  p_storm_longitudes :: "real list"

record ships_prediction_dict =
  s_init_times :: "int list"
  s_init_latitudes :: "real list"
  s_init_longitudes :: "real list"

text \<open>
  The module \<open>longitude_conversion\<close> belongs to the external library gewittergefahr
  and is a parameter of the model: two conversions that work element by element, each of
  which may raise (on a longitude that the library does not accept).  Nothing else is
  assumed of them.
\<close>

record lng_conversion =
  convert_lng_positive_in_west :: "real \<Rightarrow> error + real"
  convert_lng_negative_in_west :: "real \<Rightarrow> error + real"

definition MAX_DISTANCE_DEG :: real where
  "MAX_DISTANCE_DEG = 1"

text \<open>The local arrays of \<open>_match_examples\<close> (source lines 76 to 96).\<close>

record match_arrays =
  ships_init_times_unix_sec :: "int list"
  ships_latitudes_deg_n :: "real list"
  ships_pos_longitudes_deg_e :: "real list"
  ships_neg_longitudes_deg_e :: "real list"
  cnn_init_times_unix_sec :: "int list"
  cnn_latitudes_deg_n :: "real list"
  cnn_pos_longitudes_deg_e :: "real list"
  cnn_neg_longitudes_deg_e :: "real list"

definition read_arrays ::
  "lng_conversion \<Rightarrow> 'a prediction_dict_scheme \<Rightarrow> 'b ships_prediction_dict_scheme
    \<Rightarrow> error + match_arrays" where
  "read_arrays lc cnn_prediction_dict ships_prediction_dict =
     bind_result (map_result (convert_lng_positive_in_west lc)
                    (s_init_longitudes ships_prediction_dict)) (\<lambda>ships_pos.
     bind_result (map_result (convert_lng_negative_in_west lc)
                    (s_init_longitudes ships_prediction_dict)) (\<lambda>ships_neg.
     bind_result (map_result (convert_lng_positive_in_west lc)
                    (p_storm_longitudes cnn_prediction_dict)) (\<lambda>cnn_pos.
     bind_result (map_result (convert_lng_negative_in_west lc)
                    (p_storm_longitudes cnn_prediction_dict)) (\<lambda>cnn_neg.
       Inr \<lparr>ships_init_times_unix_sec = s_init_times ships_prediction_dict,
            ships_latitudes_deg_n = s_init_latitudes ships_prediction_dict,
            ships_pos_longitudes_deg_e = ships_pos,
            ships_neg_longitudes_deg_e = ships_neg,
            cnn_init_times_unix_sec = p_init_times cnn_prediction_dict,
            cnn_latitudes_deg_n = p_storm_latitudes cnn_prediction_dict,
            cnn_pos_longitudes_deg_e = cnn_pos,
            cnn_neg_longitudes_deg_e = cnn_neg\<rparr>))))"

text \<open>
  \<open>numpy.sqrt((lats[i] - ships_lats[js]) ** 2 + (lngs[i] - ships_lngs[js]) ** 2)\<close>,
  with the four subscripts in the order the source evaluates them.
\<close>

definition planar_distances_deg ::
  "real list \<Rightarrow> real list \<Rightarrow> real list \<Rightarrow> real list \<Rightarrow> nat \<Rightarrow> nat list \<Rightarrow> error + real list" where
  "planar_distances_deg cnn_lats ships_lats cnn_lngs ships_lngs i js =
     bind_result (getitem cnn_lats i) (\<lambda>cnn_lat.
     bind_result (getitems ships_lats js) (\<lambda>lats.
     bind_result (getitem cnn_lngs i) (\<lambda>cnn_lng.
     bind_result (getitems ships_lngs js) (\<lambda>lngs.
       Inr (map (\<lambda>(lat, lng). sqrt ((cnn_lat - lat)\<^sup>2 + (cnn_lng - lng)\<^sup>2))
              (zip lats lngs))))))"

text \<open>
  The body of the loop for one CNN example \<open>i\<close> (source lines 102 to 124), up to the
  store into \<open>cnn_to_ships_indices\<close>: \<open>None\<close> is a \<open>continue\<close>, \<open>Some j\<close> the
  index \<open>js[argmin]\<close> that line 124 stores.
\<close>

definition find_match :: "match_arrays \<Rightarrow> nat \<Rightarrow> error + nat option" where
  "find_match A i =
     (let js = numpy_where_eq (ships_init_times_unix_sec A) (cnn_init_times_unix_sec A ! i)
      in if length js = 0 then Inr None
         else
           bind_result (planar_distances_deg (cnn_latitudes_deg_n A) (ships_latitudes_deg_n A)
                          (cnn_pos_longitudes_deg_e A) (ships_pos_longitudes_deg_e A) i js)
             (\<lambda>first_distances_deg.
           bind_result (planar_distances_deg (cnn_latitudes_deg_n A) (ships_latitudes_deg_n A)
                          (cnn_neg_longitudes_deg_e A) (ships_neg_longitudes_deg_e A) i js)
             (\<lambda>second_distances_deg.
           let these_distances_deg =
                 map (\<lambda>(a, b). min a b) (zip first_distances_deg second_distances_deg)
           in bind_result (numpy_min these_distances_deg) (\<lambda>m.
                if m > MAX_DISTANCE_DEG then Inr None
                else bind_result (numpy_argmin these_distances_deg) (\<lambda>k.
                       Inr (Some (js ! k)))))))"

text \<open>The loop over \<open>range(num_cnn_examples)\<close>, threading \<open>cnn_to_ships_indices\<close>.\<close>

fun match_loop :: "match_arrays \<Rightarrow> nat list \<Rightarrow> int list \<Rightarrow> error + int list" where
  "match_loop A [] cnn_to_ships_indices = Inr cnn_to_ships_indices"
| "match_loop A (i # is) cnn_to_ships_indices =
     bind_result (find_match A i) (\<lambda>r.
       match_loop A is
         (case r of None \<Rightarrow> cnn_to_ships_indices
          | Some j \<Rightarrow> cnn_to_ships_indices[i := int j]))"

text \<open>Source lines 98 to 133: the loop, then the two index arrays.  The message that the
  source prints before it returns is output only and is left out.\<close>

definition match_indices :: "match_arrays \<Rightarrow> error + (nat list \<times> int list)" where
  "match_indices A =
     (let num_cnn_examples = length (cnn_init_times_unix_sec A)
      in bind_result
           (match_loop A [0..<num_cnn_examples] (replicate num_cnn_examples (- 1)))
           (\<lambda>cnn_to_ships_indices.
              let cnn_indices = filter (\<lambda>i. cnn_to_ships_indices ! i \<ge> 0)
                                  [0..<length cnn_to_ships_indices];
                  ships_indices = map (\<lambda>i. cnn_to_ships_indices ! i) cnn_indices
              in Inr (cnn_indices, ships_indices)))"

definition match_examples ::
  "lng_conversion \<Rightarrow> 'a prediction_dict_scheme \<Rightarrow> 'b ships_prediction_dict_scheme
    \<Rightarrow> error + (nat list \<times> int list)" where
  "match_examples lc cnn_prediction_dict ships_prediction_dict =
     bind_result (read_arrays lc cnn_prediction_dict ships_prediction_dict) match_indices"

text \<open>
  The distance that the loop compares for CNN example \<open>i\<close> and SHIPS example \<open>j\<close>:
  the smaller of the planar distances in the two longitude conventions.
\<close>

definition these_distance_deg :: "match_arrays \<Rightarrow> nat \<Rightarrow> nat \<Rightarrow> real" where
  "these_distance_deg A i j =
     min (sqrt ((cnn_latitudes_deg_n A ! i - ships_latitudes_deg_n A ! j)\<^sup>2
                + (cnn_pos_longitudes_deg_e A ! i - ships_pos_longitudes_deg_e A ! j)\<^sup>2))
         (sqrt ((cnn_latitudes_deg_n A ! i - ships_latitudes_deg_n A ! j)\<^sup>2
                + (cnn_neg_longitudes_deg_e A ! i - ships_neg_longitudes_deg_e A ! j)\<^sup>2))"

text \<open>Arrays of agreeing lengths: the loop body raises nothing.\<close>

definition lengths_agree :: "match_arrays \<Rightarrow> bool" where
  "lengths_agree A \<longleftrightarrow>
     length (ships_latitudes_deg_n A) = length (ships_init_times_unix_sec A)
   \<and> length (ships_pos_longitudes_deg_e A) = length (ships_init_times_unix_sec A)
   \<and> length (ships_neg_longitudes_deg_e A) = length (ships_init_times_unix_sec A)
   \<and> length (cnn_latitudes_deg_n A) = length (cnn_init_times_unix_sec A)
   \<and> length (cnn_pos_longitudes_deg_e A) = length (cnn_init_times_unix_sec A)
   \<and> length (cnn_neg_longitudes_deg_e A) = length (cnn_init_times_unix_sec A)"

section \<open>Finding satellite files\<close>

text \<open>
  The file system and the cyclone-ID parser of \<open>satellite_utils\<close> are parameters:
  \<open>isfile\<close> is \<open>os.path.isfile\<close>, \<open>glob\<close> is \<open>glob.glob\<close> (the
  paths that match a pattern, in the order returned), and \<open>parse_cyclone_id\<close> either
  raises or returns the parsed ID.  The assertions on argument types hold by typing.
\<close>

definition GZIP_FILE_EXTENSION :: string where
  "GZIP_FILE_EXTENSION = ''.gz''"

definition CYCLONE_ID_REGEX :: string where
  "CYCLONE_ID_REGEX = ''[0-9][0-9][0-9][0-9][A-Z][A-Z][0-9][0-9]''"

definition find_file ::
  "(string \<Rightarrow> error + 'c) \<Rightarrow> (string \<Rightarrow> bool) \<Rightarrow> string \<Rightarrow> string \<Rightarrow> bool \<Rightarrow> bool \<Rightarrow> bool
    \<Rightarrow> error + string" where
  "find_file parse_cyclone_id isfile directory_name cyclone_id_string prefer_zipped
       allow_other_format raise_error_if_missing =
     bind_result (parse_cyclone_id cyclone_id_string) (\<lambda>_.
       let satellite_file_name =
             directory_name @ ''/cira_satellite_'' @ cyclone_id_string @ ''.nc''
               @ (if prefer_zipped then GZIP_FILE_EXTENSION else '''')
       in if isfile satellite_file_name then Inr satellite_file_name
          else
            let satellite_file_name =
                  (if allow_other_format
                   then (if prefer_zipped
                         then take (length satellite_file_name - length GZIP_FILE_EXTENSION)
                                satellite_file_name
                         else satellite_file_name @ GZIP_FILE_EXTENSION)
                   else satellite_file_name)
            in if isfile satellite_file_name \<or> \<not> raise_error_if_missing
               then Inr satellite_file_name
               else Inl ValueError)"

text \<open>\<open>os.path.split(p)[1]\<close>, \<open>s.split('.')[0]\<close> and \<open>s.split('_')[-1]\<close>.\<close>

definition path_tail :: "string \<Rightarrow> string" where
  "path_tail p = rev (takeWhile (\<lambda>c. c \<noteq> CHR ''/'') (rev p))"

definition split_first :: "char \<Rightarrow> string \<Rightarrow> string" where
  "split_first sep s = takeWhile (\<lambda>c. c \<noteq> sep) s"

definition split_last :: "char \<Rightarrow> string \<Rightarrow> string" where
  "split_last sep s = rev (takeWhile (\<lambda>c. c \<noteq> sep) (rev s))"

definition file_name_to_cyclone_id :: "(string \<Rightarrow> error + 'c) \<Rightarrow> string \<Rightarrow> error + string" where
  "file_name_to_cyclone_id parse_cyclone_id satellite_file_name =
     (let pathless_file_name = path_tail satellite_file_name;
          cyclone_id_string = split_last (CHR ''_'') (split_first (CHR ''.'') pathless_file_name)
      in bind_result (parse_cyclone_id cyclone_id_string) (\<lambda>_. Inr cyclone_id_string))"

text \<open>The loop of \<open>find_cyclones\<close>: \<open>try: append(...) except: pass\<close>.\<close>

fun collect_cyclone_ids ::
  "(string \<Rightarrow> error + 'c) \<Rightarrow> string list \<Rightarrow> string list \<Rightarrow> string list" where
  "collect_cyclone_ids parse_cyclone_id [] cyclone_id_strings = cyclone_id_strings"
| "collect_cyclone_ids parse_cyclone_id (this_file_name # rest) cyclone_id_strings =
     collect_cyclone_ids parse_cyclone_id rest
       (case file_name_to_cyclone_id parse_cyclone_id this_file_name of
          Inl e \<Rightarrow> cyclone_id_strings
        | Inr c \<Rightarrow> cyclone_id_strings @ [c])"

definition find_cyclones ::
  "(string \<Rightarrow> error + 'c) \<Rightarrow> (string \<Rightarrow> string list) \<Rightarrow> string \<Rightarrow> bool \<Rightarrow> error + string list" where
  "find_cyclones parse_cyclone_id glob directory_name raise_error_if_all_missing =
     (let file_pattern = directory_name @ ''/cira_satellite_'' @ CYCLONE_ID_REGEX @ ''.nc'';
          satellite_file_names = glob file_pattern;
          file_pattern = file_pattern @ GZIP_FILE_EXTENSION;
          satellite_file_names = satellite_file_names @ glob file_pattern;
          cyclone_id_strings = collect_cyclone_ids parse_cyclone_id satellite_file_names [];
          cyclone_id_strings = sort (remdups cyclone_id_strings)
      in if raise_error_if_all_missing \<and> length cyclone_id_strings = 0
         then Inl ValueError
         else Inr cyclone_id_strings)"

text \<open>The files that both patterns match, in the order the loop visits them.\<close>

definition matching_files :: "(string \<Rightarrow> string list) \<Rightarrow> string \<Rightarrow> string list" where
  "matching_files glob directory_name =
     glob (directory_name @ ''/cira_satellite_'' @ CYCLONE_ID_REGEX @ ''.nc'')
     @ glob (directory_name @ ''/cira_satellite_'' @ CYCLONE_ID_REGEX @ ''.nc'' @ ''.gz'')"

section \<open>Plotting satellite data\<close>


text \<open>\<open>numpy.diff\<close> of a one-dimensional array.\<close>

definition numpy_diff :: "real list \<Rightarrow> real list" where
  "numpy_diff xs = map (\<lambda>(a, b). b - a) (zip (butlast xs) (tl xs))"


text \<open>
  A numpy array of reals: its shape and its elements in row-major order.  The checks
  below belong to the module \<open>error_checking\<close> of the external library
  gewittergefahr and follow its documentation: a wrong number of dimensions or a wrong
  shape is a TypeError, a value out of bounds a ValueError.  The options \<open>allow_nan\<close>
  and the check \<open>assert_is_numpy_array_without_nan\<close> have no counterpart, a real
  number being no NaN; the checks of argument types hold by typing.
\<close>

datatype ndarray = NDArray (shape: "nat list") (flat: "real list")

definition assert_is_numpy_array :: "ndarray \<Rightarrow> nat option \<Rightarrow> nat list option \<Rightarrow> error + unit" where
  "assert_is_numpy_array a num_dimensions exact_dimensions =
     (if (case num_dimensions of None \<Rightarrow> False | Some n \<Rightarrow> length (shape a) \<noteq> n)
      then Inl TypeError
      else if (case exact_dimensions of None \<Rightarrow> False | Some dims \<Rightarrow> shape a \<noteq> dims)
      then Inl TypeError
      else Inr ())"

definition assert_is_greater_numpy_array :: "real list \<Rightarrow> real \<Rightarrow> error + unit" where
  "assert_is_greater_numpy_array xs base_value =
     (if list_all (\<lambda>x. x > base_value) xs then Inr () else Inl ValueError)"

definition assert_is_valid_lat_numpy_array :: "real list \<Rightarrow> error + unit" where
  "assert_is_valid_lat_numpy_array latitudes_deg =
     (if list_all (\<lambda>x. - 90 \<le> x \<and> x \<le> 90) latitudes_deg then Inr () else Inl ValueError)"


text \<open>\<open>len(a)\<close>: the first dimension; a zero-dimensional array has no length.\<close>

definition len :: "ndarray \<Rightarrow> error + nat" where
  "len a = (case shape a of [] \<Rightarrow> Inl TypeError | n # _ \<Rightarrow> Inr n)"

text \<open>
  The input checks of \<open>plot_2d_grid_regular\<close> (source lines 169 to 192).  The result is
  the longitude array after conversion; drawing on the axes is outside the model.
\<close>

definition plot_2d_grid_regular_checks ::
  "lng_conversion \<Rightarrow> ndarray \<Rightarrow> ndarray \<Rightarrow> ndarray \<Rightarrow> error + ndarray" where
  "plot_2d_grid_regular_checks lc brightness_temp_matrix_kelvins latitudes_deg_n longitudes_deg_e =
     bind_result (assert_is_numpy_array latitudes_deg_n (Some 1) None) (\<lambda>_.
     bind_result (assert_is_valid_lat_numpy_array (flat latitudes_deg_n)) (\<lambda>_.
     bind_result (assert_is_greater_numpy_array (numpy_diff (flat latitudes_deg_n)) 0) (\<lambda>_.
     bind_result (assert_is_numpy_array longitudes_deg_e (Some 1) None) (\<lambda>_.
     bind_result (map_result (convert_lng_negative_in_west lc) (flat longitudes_deg_e)) (\<lambda>lngs.
     let longitudes_deg_e = NDArray (shape longitudes_deg_e) lngs in
     bind_result (assert_is_greater_numpy_array (numpy_diff (flat longitudes_deg_e)) 0) (\<lambda>_.
     bind_result (len latitudes_deg_n) (\<lambda>num_rows.
     bind_result (len longitudes_deg_e) (\<lambda>num_columns.
     let expected_dim = [num_rows, num_columns] in
     bind_result (assert_is_numpy_array brightness_temp_matrix_kelvins None (Some expected_dim))
       (\<lambda>_.
     bind_result (assert_is_greater_numpy_array (flat brightness_temp_matrix_kelvins) 0) (\<lambda>_.
       Inr longitudes_deg_e))))))))))"



section \<open>Example inputs\<close>

text \<open>
  A pair of conversions for the examples: longitudes from -180 to 360 are accepted;
  positive-in-west adds 360 to a negative one, negative-in-west takes 360 from one above
  180.  Then five CNN examples and six SHIPS examples.
\<close>

definition example_lng_conversion :: lng_conversion where
  "example_lng_conversion =
     \<lparr>convert_lng_positive_in_west =
        (\<lambda>x. if x < - 180 \<or> 360 < x then Inl ValueError
              else Inr (if x < 0 then x + 360 else x)),
      convert_lng_negative_in_west =
        (\<lambda>x. if x < - 180 \<or> 360 < x then Inl ValueError
              else Inr (if 180 < x then x - 360 else x))\<rparr>"

definition example_cnn :: prediction_dict where
  "example_cnn =
     \<lparr>p_init_times = [0, 10, 20, 30, 40],
      p_storm_latitudes = [10, 20, 30, 40, 50],
      p_storm_longitudes = [- 60, 100, 350, 0, 5]\<rparr>"

definition example_ships :: ships_prediction_dict where
  "example_ships =
     \<lparr>s_init_times = [10, 0, 0, 20, 30, 10],
      s_init_latitudes = [20, 13, 10, 30, 42, 20],
      s_init_longitudes = [100, - 60, 300, - 10, 0, 100]\<rparr>"

text \<open>The local arrays of the run on these examples.\<close>

definition example_arrays :: match_arrays where
  "example_arrays =
     \<lparr>ships_init_times_unix_sec = [10, 0, 0, 20, 30, 10],
      ships_latitudes_deg_n = [20, 13, 10, 30, 42, 20],
      ships_pos_longitudes_deg_e = [100, 300, 300, 350, 0, 100],
      ships_neg_longitudes_deg_e = [100, - 60, - 60, - 10, 0, 100],
      cnn_init_times_unix_sec = [0, 10, 20, 30, 40],
      cnn_latitudes_deg_n = [10, 20, 30, 40, 50],
      cnn_pos_longitudes_deg_e = [300, 100, 350, 0, 5],
      cnn_neg_longitudes_deg_e = [- 60, 100, - 10, 0, 5]\<rparr>"




text \<open>A grid of two latitudes and three longitudes with a 2-by-3 matrix on it.\<close>

definition example_latitudes :: ndarray where
  "example_latitudes = NDArray [2] [10, 11]"

definition example_longitudes :: ndarray where
  "example_longitudes = NDArray [3] [- 60, - 59, - 58]"

definition example_matrix :: ndarray where
  "example_matrix = NDArray [2, 3] [200, 210, 220, 230, 240, 250]"

text \<open>
  A parser that rejects the ID \<open>2005XX01\<close> (it matches the pattern, its basin does not
  exist) and a directory \<open>/data\<close> with two unzipped files.
\<close>

definition example_parse_cyclone_id :: "string \<Rightarrow> error + unit" where
  "example_parse_cyclone_id s = (if s = ''2005XX01'' then Inl ValueError else Inr ())"

definition example_glob :: "string \<Rightarrow> string list" where
  "example_glob pattern =
     (if pattern = ''/data/cira_satellite_'' @ CYCLONE_ID_REGEX @ ''.nc''
      then [''/data/cira_satellite_2005XX01.nc'', ''/data/cira_satellite_2005AL12.nc'']
      else [])"

definition empty_glob :: "string \<Rightarrow> string list" where
  "empty_glob pattern = []"

section \<open>Properties of the array primitives\<close>

lemma bind_result_Inr_iff:
  "bind_result m f = Inr y \<longleftrightarrow> (\<exists>x. m = Inr x \<and> f x = Inr y)"
  by (cases m) (simp_all add: bind_result_def)

lemma map_result_Inr:
  "map_result f xs = Inr ys \<Longrightarrow> length ys = length xs \<and> (\<forall>i<length xs. f (xs ! i) = Inr (ys ! i))"
proof (induction xs arbitrary: ys)
  case Nil
  then show ?case by simp
next
  case (Cons x xs)
  from Cons.prems obtain y ys' where y: "f x = Inr y" and ys': "map_result f xs = Inr ys'"
    and e: "ys = y # ys'"
    by (auto simp: bind_result_Inr_iff)
  from Cons.IH [OF ys'] y e show ?case
    by (auto simp: nth_Cons split: nat.splits)
qed

lemma map_result_total:
  "(\<And>x. x \<in> set xs \<Longrightarrow> \<exists>y. f x = Inr y) \<Longrightarrow> \<exists>ys. map_result f xs = Inr ys"
proof (induction xs)
  case Nil
  then show ?case by simp
next
  case (Cons x xs)
  then obtain y where "f x = Inr y" by auto
  moreover from Cons obtain ys where "map_result f xs = Inr ys" by auto
  ultimately show ?case by (simp add: bind_result_def)
qed

lemma getitems_Inr:
  "getitems xs js = Inr ys \<Longrightarrow> ys = map ((!) xs) js \<and> (\<forall>j\<in>set js. j < length xs)"
proof -
  assume a: "getitems xs js = Inr ys"
  from map_result_Inr [OF a [unfolded getitems_def]]
  have l: "length ys = length js" and n: "\<forall>k<length js. getitem xs (js ! k) = Inr (ys ! k)"
    by auto
  have "\<forall>k<length js. js ! k < length xs \<and> ys ! k = xs ! (js ! k)"
    using n by (auto simp: getitem_def split: if_splits)
  then show ?thesis using l
    by (auto simp: list_eq_iff_nth_eq in_set_conv_nth)
qed

lemma getitems_total:
  "\<forall>j\<in>set js. j < length xs \<Longrightarrow> getitems xs js = Inr (map ((!) xs) js)"
  by (induction js) (simp_all add: getitems_def getitem_def bind_result_def)

lemma planar_distances_deg_Inr:
  assumes "planar_distances_deg cl sl cg sg i js = Inr ds"
  shows "ds = map (\<lambda>j. sqrt ((cl ! i - sl ! j)\<^sup>2 + (cg ! i - sg ! j)\<^sup>2)) js"
    and "js \<noteq> [] \<Longrightarrow> i < length cl \<and> i < length cg"
    and "\<forall>j\<in>set js. j < length sl \<and> j < length sg"
proof -
  from assms obtain a lats b lngs where
    a: "getitem cl i = Inr a" and lats: "getitems sl js = Inr lats"
    and b: "getitem cg i = Inr b" and lngs: "getitems sg js = Inr lngs"
    and ds: "ds = map (\<lambda>(lat, lng). sqrt ((a - lat)\<^sup>2 + (b - lng)\<^sup>2)) (zip lats lngs)"
    unfolding planar_distances_deg_def by (auto simp: bind_result_Inr_iff)
  from a b have ab: "i < length cl" "i < length cg" "a = cl ! i" "b = cg ! i"
    by (auto simp: getitem_def split: if_splits)
  from getitems_Inr [OF lats] getitems_Inr [OF lngs]
  have l: "lats = map ((!) sl) js" "lngs = map ((!) sg) js"
    and r: "\<forall>j\<in>set js. j < length sl" "\<forall>j\<in>set js. j < length sg" by auto
  show "ds = map (\<lambda>j. sqrt ((cl ! i - sl ! j)\<^sup>2 + (cg ! i - sg ! j)\<^sup>2)) js"
    unfolding ds l ab by (simp add: zip_map_map zip_same_conv_map o_def)
  show "js \<noteq> [] \<Longrightarrow> i < length cl \<and> i < length cg" using ab by simp
  show "\<forall>j\<in>set js. j < length sl \<and> j < length sg" using r by simp
qed

lemma planar_distances_deg_total:
  assumes "i < length cl" "i < length cg" "\<forall>j\<in>set js. j < length sl \<and> j < length sg"
  shows "\<exists>ds. planar_distances_deg cl sl cg sg i js = Inr ds"
  using assms unfolding planar_distances_deg_def
  by (simp add: getitem_def getitems_total bind_result_def)

lemma fold_min_Min: "fold min ds (d::real) = Min (set (d # ds))"
  by (metis Min.set_eq_fold)

lemma Min_set_Cons: "xs \<noteq> [] \<Longrightarrow> Min (set (x # xs)) = min (x::real) (Min (set xs))"
  by simp

lemma numpy_min_Inr: "ds \<noteq> [] \<Longrightarrow> numpy_min ds = Inr (Min (set ds))"
  by (cases ds) (simp_all add: fold_min_Min del: set_simps)

lemma numpy_argmin_Inr:
  "ds \<noteq> [] \<Longrightarrow> \<exists>k. numpy_argmin ds = Inr k \<and> k < length ds \<and> ds ! k = Min (set ds)
      \<and> (\<forall>k'<k. ds ! k < ds ! k')"
proof (induction ds rule: numpy_argmin.induct)
  case 1
  then show ?case by simp
next
  case (2 d)
  then show ?case by simp
next
  case (3 d e ds)
  have c: "Min (set (d # e # ds)) = min d (Min (set (e # ds)))"
    by (rule Min_set_Cons) simp
  show ?case
  proof (cases "d \<le> fold min ds e")
    case True
    then have "d \<le> Min (set (e # ds))" by (simp only: fold_min_Min)
    then have "Min (set (d # e # ds)) = d"
      unfolding c by (rule min.absorb1)
    with True show ?thesis by simp
  next
    case False
    then have lt: "Min (set (e # ds)) < d" by (simp only: fold_min_Min not_le)
    have "e # ds \<noteq> []" by simp
    from "3.IH" [OF False this]
    obtain k where k: "numpy_argmin (e # ds) = Inr k" "k < length (e # ds)"
      "(e # ds) ! k = Min (set (e # ds))" "\<forall>k'<k. (e # ds) ! k < (e # ds) ! k'"
      by blast
    have m: "Min (set (d # e # ds)) = Min (set (e # ds))"
      unfolding c using lt by (simp only: min_def not_le [symmetric] if_False)
    have "\<forall>k'<Suc k. (d # e # ds) ! Suc k < (d # e # ds) ! k'"
    proof (intro allI impI)
      fix k' assume "k' < Suc k"
      then show "(d # e # ds) ! Suc k < (d # e # ds) ! k'"
        using k(3,4) lt by (cases k') auto
    qed
    with k m False show ?thesis
      by (simp add: bind_result_def)
  qed
qed

section \<open>The loop body of the matching\<close>

lemma set_numpy_where_eq: "set (numpy_where_eq ts t) = {j. j < length ts \<and> ts ! j = t}"
  by (auto simp: numpy_where_eq_def)

lemma sorted_numpy_where_eq: "sorted_wrt (<) (numpy_where_eq ts t)"
  unfolding numpy_where_eq_def by (rule sorted_wrt_filter) simp

text \<open>What a run of the loop body that does not raise has computed.\<close>

lemma find_match_cases:
  assumes "find_match A i = Inr r"
  defines "js \<equiv> numpy_where_eq (ships_init_times_unix_sec A) (cnn_init_times_unix_sec A ! i)"
  shows "js = [] \<and> r = None
    \<or> (js \<noteq> []
        \<and> i < length (cnn_latitudes_deg_n A) \<and> i < length (cnn_pos_longitudes_deg_e A)
        \<and> i < length (cnn_neg_longitudes_deg_e A)
        \<and> (\<forall>j\<in>set js. j < length (ships_latitudes_deg_n A)
              \<and> j < length (ships_pos_longitudes_deg_e A)
              \<and> j < length (ships_neg_longitudes_deg_e A))
        \<and> (\<exists>k<length js. (\<forall>k'<length js. these_distance_deg A i (js ! k) \<le> these_distance_deg A i (js ! k'))
              \<and> (\<forall>k'<k. these_distance_deg A i (js ! k) < these_distance_deg A i (js ! k'))
              \<and> r = (if these_distance_deg A i (js ! k) > MAX_DISTANCE_DEG then None else Some (js ! k))))"
proof (cases "js = []")
  case True
  with assms show ?thesis by (simp add: find_match_def Let_def)
next
  case False
  let ?cl = "cnn_latitudes_deg_n A" and ?sl = "ships_latitudes_deg_n A"
  from assms(1) False obtain d1 d2 m where
    d1: "planar_distances_deg ?cl ?sl (cnn_pos_longitudes_deg_e A) (ships_pos_longitudes_deg_e A) i js = Inr d1"
    and d2: "planar_distances_deg ?cl ?sl (cnn_neg_longitudes_deg_e A) (ships_neg_longitudes_deg_e A) i js = Inr d2"
    and m: "numpy_min (map (\<lambda>(a, b). min a b) (zip d1 d2)) = Inr m"
    and r: "(if m > MAX_DISTANCE_DEG then Inr None
             else bind_result (numpy_argmin (map (\<lambda>(a, b). min a b) (zip d1 d2)))
                    (\<lambda>k. Inr (Some (js ! k)))) = Inr r"
    unfolding find_match_def js_def [symmetric] Let_def
    by (auto simp: bind_result_Inr_iff)
  define ds where "ds = map (\<lambda>(a, b). min a b) (zip d1 d2)"
  have ds: "ds = map (these_distance_deg A i) js"
    unfolding ds_def planar_distances_deg_Inr(1) [OF d1] planar_distances_deg_Inr(1) [OF d2]
    by (simp add: zip_map_map zip_same_conv_map o_def these_distance_deg_def)
  have ne: "ds \<noteq> []" using False ds by simp
  from numpy_argmin_Inr [OF ne] obtain k where
    k: "numpy_argmin ds = Inr k" "k < length ds" "ds ! k = Min (set ds)" "\<forall>k'<k. ds ! k < ds ! k'"
    by blast
  have mm: "m = ds ! k"
    using m numpy_min_Inr [OF ne] k(3) by (simp add: ds_def)
  have len: "length ds = length js" by (simp add: ds)
  have nth: "\<And>n. n < length js \<Longrightarrow> ds ! n = these_distance_deg A i (js ! n)"
    by (simp add: ds)
  have min: "\<forall>k'<length js. these_distance_deg A i (js ! k) \<le> these_distance_deg A i (js ! k')"
  proof (intro allI impI)
    fix k' assume k': "k' < length js"
    then have "ds ! k' \<in> set ds" by (simp add: len)
    then have "Min (set ds) \<le> ds ! k'" by simp
    then show "these_distance_deg A i (js ! k) \<le> these_distance_deg A i (js ! k')"
      using k(2,3) k' nth len by simp
  qed
  have first: "\<forall>k'<k. these_distance_deg A i (js ! k) < these_distance_deg A i (js ! k')"
    using k(2,4) nth len by simp
  have r': "r = (if these_distance_deg A i (js ! k) > MAX_DISTANCE_DEG then None else Some (js ! k))"
    using r k(1,2) nth len unfolding ds_def [symmetric] mm
    by (auto simp: bind_result_def split: if_splits)
  from planar_distances_deg_Inr(2,3) [OF d1] planar_distances_deg_Inr(2,3) [OF d2] False
  have rng: "i < length ?cl" "i < length (cnn_pos_longitudes_deg_e A)"
    "i < length (cnn_neg_longitudes_deg_e A)"
    "\<forall>j\<in>set js. j < length ?sl \<and> j < length (ships_pos_longitudes_deg_e A)
       \<and> j < length (ships_neg_longitudes_deg_e A)"
    by auto
  show ?thesis
    using False rng k(2) len min first r' by auto
qed

lemma find_match_Some:
  assumes "find_match A i = Inr (Some j)"
  shows "j < length (ships_init_times_unix_sec A)"
    and "ships_init_times_unix_sec A ! j = cnn_init_times_unix_sec A ! i"
    and "these_distance_deg A i j \<le> MAX_DISTANCE_DEG"
    and "\<And>j'. j' < length (ships_init_times_unix_sec A) \<Longrightarrow>
           ships_init_times_unix_sec A ! j' = cnn_init_times_unix_sec A ! i \<Longrightarrow>
           these_distance_deg A i j \<le> these_distance_deg A i j'
           \<and> (j' < j \<longrightarrow> these_distance_deg A i j < these_distance_deg A i j')"
    and "j < length (ships_latitudes_deg_n A) \<and> j < length (ships_pos_longitudes_deg_e A)
           \<and> j < length (ships_neg_longitudes_deg_e A)"
proof -
  define js where
    "js = numpy_where_eq (ships_init_times_unix_sec A) (cnn_init_times_unix_sec A ! i)"
  from find_match_cases [OF assms, folded js_def]
  obtain k where k: "k < length js" "j = js ! k"
    and le: "these_distance_deg A i j \<le> MAX_DISTANCE_DEG"
    and mn: "\<forall>k'<length js. these_distance_deg A i j \<le> these_distance_deg A i (js ! k')"
    and fst: "\<forall>k'<k. these_distance_deg A i j < these_distance_deg A i (js ! k')"
    and rng: "\<forall>j\<in>set js. j < length (ships_latitudes_deg_n A)
              \<and> j < length (ships_pos_longitudes_deg_e A)
              \<and> j < length (ships_neg_longitudes_deg_e A)"
    by (auto split: if_splits)
  have jin: "j \<in> set js" using k by simp
  then show "j < length (ships_init_times_unix_sec A)"
    and "ships_init_times_unix_sec A ! j = cnn_init_times_unix_sec A ! i"
    by (simp_all add: js_def set_numpy_where_eq)
  show "these_distance_deg A i j \<le> MAX_DISTANCE_DEG" by (rule le)
  show "j < length (ships_latitudes_deg_n A) \<and> j < length (ships_pos_longitudes_deg_e A)
           \<and> j < length (ships_neg_longitudes_deg_e A)"
    using rng jin by blast
  fix j'
  assume "j' < length (ships_init_times_unix_sec A)"
    and "ships_init_times_unix_sec A ! j' = cnn_init_times_unix_sec A ! i"
  then have "j' \<in> set js" by (simp add: js_def set_numpy_where_eq)
  then obtain k' where k': "k' < length js" "j' = js ! k'"
    by (auto simp: in_set_conv_nth)
  have srt: "sorted_wrt (<) js" unfolding js_def by (rule sorted_numpy_where_eq)
  have "j' < j \<Longrightarrow> k' < k"
  proof (rule ccontr)
    assume a: "j' < j" and "\<not> k' < k"
    then have "k \<le> k'" by simp
    then have "k = k' \<or> k < k'" by arith
    then have "js ! k \<le> js ! k'"
      using srt k'(1) by (auto simp: sorted_wrt_iff_nth_less less_imp_le)
    with a k k' show False by simp
  qed
  with mn fst k' show "these_distance_deg A i j \<le> these_distance_deg A i j'
           \<and> (j' < j \<longrightarrow> these_distance_deg A i j < these_distance_deg A i j')"
    by auto
qed


lemma find_match_total:
  assumes "lengths_agree A" "i < length (cnn_init_times_unix_sec A)"
  shows "\<exists>r. find_match A i = Inr r"
proof -
  define js where
    "js = numpy_where_eq (ships_init_times_unix_sec A) (cnn_init_times_unix_sec A ! i)"
  show ?thesis
  proof (cases "js = []")
    case True
    then show ?thesis by (simp add: find_match_def js_def)
  next
    case False
    have in_range: "\<forall>j\<in>set js. j < length (ships_init_times_unix_sec A)"
      by (simp add: js_def set_numpy_where_eq)
    from assms in_range obtain d1 where d1: "planar_distances_deg (cnn_latitudes_deg_n A)
         (ships_latitudes_deg_n A) (cnn_pos_longitudes_deg_e A) (ships_pos_longitudes_deg_e A) i js = Inr d1"
      using planar_distances_deg_total [of i "cnn_latitudes_deg_n A" "cnn_pos_longitudes_deg_e A"
          js "ships_latitudes_deg_n A" "ships_pos_longitudes_deg_e A"]
      by (auto simp: lengths_agree_def)
    from assms in_range obtain d2 where d2: "planar_distances_deg (cnn_latitudes_deg_n A)
         (ships_latitudes_deg_n A) (cnn_neg_longitudes_deg_e A) (ships_neg_longitudes_deg_e A) i js = Inr d2"
      using planar_distances_deg_total [of i "cnn_latitudes_deg_n A" "cnn_neg_longitudes_deg_e A"
          js "ships_latitudes_deg_n A" "ships_neg_longitudes_deg_e A"]
      by (auto simp: lengths_agree_def)
    define ds where "ds = map (\<lambda>(a, b). min a b) (zip d1 d2)"
    have "length d1 = length js" "length d2 = length js"
      using planar_distances_deg_Inr(1) [OF d1] planar_distances_deg_Inr(1) [OF d2] by simp_all
    then have ne: "ds \<noteq> []" using False by (auto simp: ds_def)
    from numpy_argmin_Inr [OF ne] obtain k where "numpy_argmin ds = Inr k" by blast
    then show ?thesis
      using False d1 d2 numpy_min_Inr [OF ne]
      unfolding find_match_def js_def [symmetric] Let_def ds_def [symmetric]
      by (simp add: bind_result_def ds_def [symmetric])
  qed
qed

lemma match_loop_Inr:
  assumes "match_loop A is c = Inr c'" "distinct is" "\<forall>i\<in>set is. i < length c"
  shows "length c' = length c
    \<and> (\<forall>i\<in>set is. \<exists>r. find_match A i = Inr r)
    \<and> (\<forall>i<length c. c' ! i =
          (if i \<in> set is then (case find_match A i of Inr (Some j) \<Rightarrow> int j | _ \<Rightarrow> c ! i)
           else c ! i))"
  using assms
proof (induction "is" arbitrary: c)
  case Nil
  then show ?case by simp
next
  case (Cons a "is")
  from Cons.prems(1) obtain r where r: "find_match A a = Inr r"
    and rest: "match_loop A is (case r of None \<Rightarrow> c | Some j \<Rightarrow> c[a := int j]) = Inr c'"
    by (auto simp: bind_result_Inr_iff)
  define c1 where "c1 = (case r of None \<Rightarrow> c | Some j \<Rightarrow> c[a := int j])"
  have l1: "length c1 = length c" by (simp add: c1_def split: option.splits)
  from Cons.prems have d: "distinct is" "a \<notin> set is" "a < length c"
    "\<forall>i\<in>set is. i < length c1" by (auto simp: l1)
  from Cons.IH [OF rest [folded c1_def] d(1,4)]
  have ih: "length c' = length c1" "\<forall>i\<in>set is. \<exists>r. find_match A i = Inr r"
    "\<forall>i<length c1. c' ! i =
        (if i \<in> set is then (case find_match A i of Inr (Some j) \<Rightarrow> int j | _ \<Rightarrow> c1 ! i)
         else c1 ! i)"
    by auto
  have "\<forall>i<length c. c' ! i =
          (if i \<in> set (a # is) then (case find_match A i of Inr (Some j) \<Rightarrow> int j | _ \<Rightarrow> c ! i)
           else c ! i)"
  proof (intro allI impI)
    fix i assume i: "i < length c"
    show "c' ! i = (if i \<in> set (a # is)
        then (case find_match A i of Inr (Some j) \<Rightarrow> int j | _ \<Rightarrow> c ! i) else c ! i)"
    proof (cases "i = a")
      case True
      then have "c' ! i = c1 ! a" using ih(3) d(2) i l1 by simp
      then show ?thesis using True r d(3)
        by (simp add: c1_def split: option.splits)
    next
      case False
      then have "c1 ! i = c ! i" by (simp add: c1_def split: option.splits)
      then show ?thesis using ih(3) i l1 False
        by (simp split: sum.splits option.splits)
    qed
  qed
  with ih(1,2) l1 r show ?case by simp
qed

lemma match_loop_total:
  "\<forall>i\<in>set is. \<exists>r. find_match A i = Inr r \<Longrightarrow> \<exists>c'. match_loop A is c = Inr c'"
  by (induction "is" arbitrary: c) (auto simp: bind_result_def)

lemma match_indices_Inr:
  assumes "match_indices A = Inr (cnn_indices, ships_indices)"
  shows "length ships_indices = length cnn_indices"
    and "sorted_wrt (<) cnn_indices"
    and "\<forall>i\<in>set cnn_indices. i < length (cnn_init_times_unix_sec A)"
    and "\<forall>k<length cnn_indices.
           \<exists>j. find_match A (cnn_indices ! k) = Inr (Some j) \<and> ships_indices ! k = int j"
    and "\<forall>i<length (cnn_init_times_unix_sec A).
           i \<notin> set cnn_indices \<longrightarrow> find_match A i = Inr None"
proof -
  define n where "n = length (cnn_init_times_unix_sec A)"
  from assms obtain c where c: "match_loop A [0..<n] (replicate n (- 1)) = Inr c"
    and ci: "cnn_indices = filter (\<lambda>i. c ! i \<ge> 0) [0..<length c]"
    and si: "ships_indices = map (\<lambda>i. c ! i) cnn_indices"
    unfolding match_indices_def n_def [symmetric] Let_def
    by (auto simp: bind_result_Inr_iff)
  from match_loop_Inr [OF c]
  have len: "length c = n"
    and tot: "\<forall>i<n. \<exists>r. find_match A i = Inr r"
    and val: "\<forall>i<n. c ! i = (case find_match A i of Inr (Some j) \<Rightarrow> int j | _ \<Rightarrow> - 1)"
    by (auto split: sum.splits option.splits)
  have pos: "\<And>i. i < n \<Longrightarrow> c ! i \<ge> 0 \<longleftrightarrow> (\<exists>j. find_match A i = Inr (Some j))"
    using val by (auto split: sum.splits option.splits)
  show "length ships_indices = length cnn_indices" by (simp add: si)
  show "sorted_wrt (<) cnn_indices" unfolding ci by (rule sorted_wrt_filter) simp
  show in_range: "\<forall>i\<in>set cnn_indices. i < length (cnn_init_times_unix_sec A)"
    by (auto simp: ci len n_def)
  show "\<forall>k<length cnn_indices.
           \<exists>j. find_match A (cnn_indices ! k) = Inr (Some j) \<and> ships_indices ! k = int j"
  proof (intro allI impI)
    fix k assume k: "k < length cnn_indices"
    then have m: "cnn_indices ! k \<in> set cnn_indices" by simp
    then have "cnn_indices ! k < n" "c ! (cnn_indices ! k) \<ge> 0"
      by (auto simp: ci len)
    then obtain j where j: "find_match A (cnn_indices ! k) = Inr (Some j)"
      using pos by blast
    with val \<open>cnn_indices ! k < n\<close> have "c ! (cnn_indices ! k) = int j" by simp
    with j k show "\<exists>j. find_match A (cnn_indices ! k) = Inr (Some j) \<and> ships_indices ! k = int j"
      by (simp add: si)
  qed
  show "\<forall>i<length (cnn_init_times_unix_sec A).
           i \<notin> set cnn_indices \<longrightarrow> find_match A i = Inr None"
  proof (intro allI impI)
    fix i assume i: "i < length (cnn_init_times_unix_sec A)" and "i \<notin> set cnn_indices"
    then have "\<not> c ! i \<ge> 0" by (auto simp: ci len n_def)
    with pos i have "\<not> (\<exists>j. find_match A i = Inr (Some j))" by (simp add: n_def)
    moreover from tot i obtain r where "find_match A i = Inr r" by (auto simp: n_def)
    ultimately show "find_match A i = Inr None" by (cases r) auto
  qed
qed

lemma match_indices_total:
  assumes "lengths_agree A"
  shows "\<exists>r. match_indices A = Inr r"
proof -
  define n where "n = length (cnn_init_times_unix_sec A)"
  have "\<forall>i\<in>set [0..<n]. \<exists>r. find_match A i = Inr r"
    using find_match_total [OF assms] by (simp add: n_def)
  from match_loop_total [OF this] obtain c where
    "match_loop A [0..<n] (replicate n (- 1)) = Inr c" by blast
  then show ?thesis
    unfolding match_indices_def n_def [symmetric] Let_def by (simp add: bind_result_def)
qed

lemma read_arrays_Inr:
  assumes "read_arrays lc cnn ships = Inr A"
  shows "ships_init_times_unix_sec A = s_init_times ships"
    and "ships_latitudes_deg_n A = s_init_latitudes ships"
    and "cnn_init_times_unix_sec A = p_init_times cnn"
    and "cnn_latitudes_deg_n A = p_storm_latitudes cnn"
    and "map_result (convert_lng_positive_in_west lc) (s_init_longitudes ships)
           = Inr (ships_pos_longitudes_deg_e A)"
    and "map_result (convert_lng_negative_in_west lc) (s_init_longitudes ships)
           = Inr (ships_neg_longitudes_deg_e A)"
    and "map_result (convert_lng_positive_in_west lc) (p_storm_longitudes cnn)
           = Inr (cnn_pos_longitudes_deg_e A)"
    and "map_result (convert_lng_negative_in_west lc) (p_storm_longitudes cnn)
           = Inr (cnn_neg_longitudes_deg_e A)"
  using assms unfolding read_arrays_def by (auto simp: bind_result_Inr_iff)

lemma match_examples_Inr:
  assumes "match_examples lc cnn ships = Inr r"
  obtains A where "read_arrays lc cnn ships = Inr A" "match_indices A = Inr r"
  using assms unfolding match_examples_def by (auto simp: bind_result_Inr_iff)

lemma example_read_arrays:
  "read_arrays example_lng_conversion example_cnn example_ships = Inr example_arrays"
  by (simp add: read_arrays_def example_lng_conversion_def example_cnn_def example_ships_def
      example_arrays_def bind_result_def)

lemma example_find_match:
  "find_match example_arrays 0 = Inr (Some 2)"
  "find_match example_arrays 1 = Inr (Some 0)"
  "find_match example_arrays 2 = Inr (Some 3)"
  "find_match example_arrays 3 = Inr None"
  "find_match example_arrays 4 = Inr None"
  by (simp_all add: find_match_def example_arrays_def numpy_where_eq_def
      planar_distances_deg_def getitem_def getitems_def bind_result_def MAX_DISTANCE_DEG_def)

lemma example_match_indices:
  "match_indices example_arrays = Inr ([0, 1, 2], [2, 0, 3])"
proof -
  have n: "length (cnn_init_times_unix_sec example_arrays) = 5"
    by (simp add: example_arrays_def)
  have u: "[0..<5] = [0, 1, 2, 3, 4]" by (simp add: upt_rec)
  have fm: "find_match example_arrays (Suc 0) = Inr (Some 0)"
    using example_find_match(2) by simp
  have r: "replicate 5 (- 1 :: int) = [- 1, - 1, - 1, - 1, - 1]"
    by (simp add: numeral_eq_Suc)
  show ?thesis
    unfolding match_indices_def n Let_def u r
    by (simp add: example_find_match fm bind_result_def u)
qed

lemma example_run:
  "match_examples example_lng_conversion example_cnn example_ships = Inr ([0, 1, 2], [2, 0, 3])"
  by (simp add: match_examples_def example_read_arrays example_match_indices bind_result_def)


text \<open>The pairs that a run returns, in terms of the loop body.\<close>

lemma match_examples_pairs:
  assumes "match_examples lc cnn ships = Inr (cnn_indices, ships_indices)"
    and "read_arrays lc cnn ships = Inr A"
  shows "length ships_indices = length cnn_indices"
    and "sorted_wrt (<) cnn_indices"
    and "\<forall>i\<in>set cnn_indices. i < length (p_init_times cnn)"
    and "\<And>k. k < length cnn_indices \<Longrightarrow>
           \<exists>j. find_match A (cnn_indices ! k) = Inr (Some j) \<and> ships_indices ! k = int j"
    and "\<And>i. i < length (p_init_times cnn) \<Longrightarrow> i \<notin> set cnn_indices \<Longrightarrow>
           find_match A i = Inr None"
proof -
  from assms have mi: "match_indices A = Inr (cnn_indices, ships_indices)"
    by (simp add: match_examples_def bind_result_def)
  note t = read_arrays_Inr(3) [OF assms(2)]
  show "length ships_indices = length cnn_indices" by (rule match_indices_Inr(1) [OF mi])
  show "sorted_wrt (<) cnn_indices" by (rule match_indices_Inr(2) [OF mi])
  show "\<forall>i\<in>set cnn_indices. i < length (p_init_times cnn)"
    using match_indices_Inr(3) [OF mi] by (simp add: t)
  show "\<And>k. k < length cnn_indices \<Longrightarrow>
           \<exists>j. find_match A (cnn_indices ! k) = Inr (Some j) \<and> ships_indices ! k = int j"
    using match_indices_Inr(4) [OF mi] by blast
  show "\<And>i. i < length (p_init_times cnn) \<Longrightarrow> i \<notin> set cnn_indices \<Longrightarrow>
           find_match A i = Inr None"
    using match_indices_Inr(5) [OF mi] by (simp add: t)
qed

lemma read_arrays_lengths:
  assumes "read_arrays lc cnn ships = Inr A"
  shows "length (ships_pos_longitudes_deg_e A) = length (s_init_longitudes ships)"
    and "length (ships_neg_longitudes_deg_e A) = length (s_init_longitudes ships)"
    and "length (cnn_pos_longitudes_deg_e A) = length (p_storm_longitudes cnn)"
    and "length (cnn_neg_longitudes_deg_e A) = length (p_storm_longitudes cnn)"
  using read_arrays_Inr(5-8) [OF assms] by (auto dest: map_result_Inr)


lemma read_arrays_total:
  assumes "\<forall>x\<in>set (s_init_longitudes ships) \<union> set (p_storm_longitudes cnn).
             (\<exists>y. convert_lng_positive_in_west lc x = Inr y)
           \<and> (\<exists>y. convert_lng_negative_in_west lc x = Inr y)"
  shows "\<exists>A. read_arrays lc cnn ships = Inr A"
proof -
  from assms obtain a where a: "map_result (convert_lng_positive_in_west lc)
      (s_init_longitudes ships) = Inr a"
    using map_result_total [of "s_init_longitudes ships" "convert_lng_positive_in_west lc"]
    by auto
  from assms obtain b where b: "map_result (convert_lng_negative_in_west lc)
      (s_init_longitudes ships) = Inr b"
    using map_result_total [of "s_init_longitudes ships" "convert_lng_negative_in_west lc"]
    by auto
  from assms obtain c where c: "map_result (convert_lng_positive_in_west lc)
      (p_storm_longitudes cnn) = Inr c"
    using map_result_total [of "p_storm_longitudes cnn" "convert_lng_positive_in_west lc"]
    by auto
  from assms obtain d where d: "map_result (convert_lng_negative_in_west lc)
      (p_storm_longitudes cnn) = Inr d"
    using map_result_total [of "p_storm_longitudes cnn" "convert_lng_negative_in_west lc"]
    by auto
  show ?thesis by (simp add: read_arrays_def a b c d bind_result_def)
qed

text \<open>
  Dictionaries whose columns have one length each, and whose longitudes the library
  accepts: the function raises nothing.
\<close>

lemma match_examples_total:
  assumes "\<forall>x\<in>set (s_init_longitudes ships) \<union> set (p_storm_longitudes cnn).
             (\<exists>y. convert_lng_positive_in_west lc x = Inr y)
           \<and> (\<exists>y. convert_lng_negative_in_west lc x = Inr y)"
    and "length (s_init_latitudes ships) = length (s_init_times ships)"
    and "length (s_init_longitudes ships) = length (s_init_times ships)"
    and "length (p_storm_latitudes cnn) = length (p_init_times cnn)"
    and "length (p_storm_longitudes cnn) = length (p_init_times cnn)"
  shows "\<exists>r. match_examples lc cnn ships = Inr r"
proof -
  from read_arrays_total [OF assms(1)] obtain A where A: "read_arrays lc cnn ships = Inr A"
    by blast
  have "lengths_agree A"
    unfolding lengths_agree_def
    using read_arrays_lengths [OF A] read_arrays_Inr(1-4) [OF A] assms(2-5) by simp
  from match_indices_total [OF this] A show ?thesis
    by (simp add: match_examples_def bind_result_def)
qed

section \<open>The matching: equal times, nearest candidate\<close>

text \<open>
  C1.  A returned pair joins a CNN example with a SHIPS example whose init time is the very
  same integer of unix seconds, and a CNN example whose init time no SHIPS example shares
  is not among the matched ones.
\<close>

theorem match_examples_exact_time:
  assumes "match_examples lc cnn ships = Inr (cnn_indices, ships_indices)"
  shows "(\<forall>k<length cnn_indices. \<exists>j<length (s_init_times ships).
            ships_indices ! k = int j
          \<and> s_init_times ships ! j = p_init_times cnn ! (cnn_indices ! k))
       \<and> (\<forall>i<length (p_init_times cnn).
            (\<forall>j<length (s_init_times ships). s_init_times ships ! j \<noteq> p_init_times cnn ! i)
            \<longrightarrow> i \<notin> set cnn_indices)"
proof -
  from match_examples_Inr [OF assms] obtain A where
    A: "read_arrays lc cnn ships = Inr A" by blast
  note t = read_arrays_Inr(1,3) [OF A]
  have matched: "\<forall>k<length cnn_indices. \<exists>j<length (s_init_times ships).
            ships_indices ! k = int j
          \<and> s_init_times ships ! j = p_init_times cnn ! (cnn_indices ! k)"
  proof (intro allI impI)
    fix k assume "k < length cnn_indices"
    from match_examples_pairs(4) [OF assms A this] obtain j where
      j: "find_match A (cnn_indices ! k) = Inr (Some j)" "ships_indices ! k = int j" by blast
    from find_match_Some(1,2) [OF j(1)] j(2)
    show "\<exists>j<length (s_init_times ships). ships_indices ! k = int j
          \<and> s_init_times ships ! j = p_init_times cnn ! (cnn_indices ! k)"
      by (auto simp: t)
  qed
  have "\<forall>i<length (p_init_times cnn).
            (\<forall>j<length (s_init_times ships). s_init_times ships ! j \<noteq> p_init_times cnn ! i)
            \<longrightarrow> i \<notin> set cnn_indices"
  proof (intro allI impI notI)
    fix i
    assume no: "\<forall>j<length (s_init_times ships). s_init_times ships ! j \<noteq> p_init_times cnn ! i"
      and "i \<in> set cnn_indices"
    then obtain k where "k < length cnn_indices" "i = cnn_indices ! k"
      by (auto simp: in_set_conv_nth)
    with matched no show False by auto
  qed
  with matched show ?thesis by blast
qed

text \<open>A run on five CNN and six SHIPS examples: example 0 is matched at equal times, example 4
  has no SHIPS example at its time.\<close>

theorem match_examples_exact_time_witness:
  "match_examples example_lng_conversion example_cnn example_ships = Inr ([0, 1, 2], [2, 0, 3])
   \<and> s_init_times example_ships ! 2 = p_init_times example_cnn ! 0
   \<and> 4 \<notin> set [0, 1, 2 :: nat]"
  using match_examples_exact_time [OF example_run] example_run
  by (simp add: example_cnn_def example_ships_def)



section \<open>The matching: the distance threshold\<close>






section \<open>The matching: determinism and the shape of the result\<close>




text \<open>
  C8.  Of a returned pair of arrays: both have one length, at most the number of CNN
  examples; \<open>cnn_indices\<close> is strictly increasing, hence without duplicates, and holds
  indices of CNN examples; every entry of \<open>ships_indices\<close> is a valid index into each
  SHIPS column; and entry \<open>k\<close> of \<open>ships_indices\<close> is what the loop body stored for CNN
  example \<open>cnn_indices[k]\<close>.
\<close>

theorem match_examples_output_invariant:
  assumes "match_examples lc cnn ships = Inr (cnn_indices, ships_indices)"
  shows "length cnn_indices = length ships_indices
       \<and> length cnn_indices \<le> length (p_init_times cnn)
       \<and> sorted_wrt (<) cnn_indices
       \<and> distinct cnn_indices
       \<and> (\<forall>i\<in>set cnn_indices. i < length (p_init_times cnn))
       \<and> (\<forall>s\<in>set ships_indices.
            0 \<le> s \<and> s < int (length (s_init_times ships))
          \<and> s < int (length (s_init_latitudes ships))
          \<and> s < int (length (s_init_longitudes ships)))
       \<and> (\<exists>A. read_arrays lc cnn ships = Inr A
            \<and> (\<forall>k<length cnn_indices.
                  find_match A (cnn_indices ! k) = Inr (Some (nat (ships_indices ! k)))))"
proof -
  from match_examples_Inr [OF assms] obtain A where
    A: "read_arrays lc cnn ships = Inr A" by blast
  note t = read_arrays_Inr(1-4) [OF A]
  note l = read_arrays_lengths [OF A]
  note p = match_examples_pairs [OF assms A]
  have d: "distinct cnn_indices"
    using p(2) by (simp add: strict_sorted_iff)
  have "set cnn_indices \<subseteq> {..<length (p_init_times cnn)}" using p(3) by auto
  then have "card (set cnn_indices) \<le> card {..<length (p_init_times cnn)}"
    by (rule card_mono [rotated]) simp
  then have le: "length cnn_indices \<le> length (p_init_times cnn)"
    using d by (simp add: distinct_card)
  have fm: "\<forall>k<length cnn_indices.
      find_match A (cnn_indices ! k) = Inr (Some (nat (ships_indices ! k)))"
    using p(4) by fastforce
  have valid: "\<forall>s\<in>set ships_indices.
            0 \<le> s \<and> s < int (length (s_init_times ships))
          \<and> s < int (length (s_init_latitudes ships))
          \<and> s < int (length (s_init_longitudes ships))"
  proof
    fix s assume "s \<in> set ships_indices"
    then obtain k where k: "k < length cnn_indices" "s = ships_indices ! k"
      by (auto simp: in_set_conv_nth p(1))
    from p(4) [OF k(1)] obtain j where
      j: "find_match A (cnn_indices ! k) = Inr (Some j)" "ships_indices ! k = int j" by blast
    from find_match_Some(1,5) [OF j(1)] k(2) j(2)
    show "0 \<le> s \<and> s < int (length (s_init_times ships))
          \<and> s < int (length (s_init_latitudes ships))
          \<and> s < int (length (s_init_longitudes ships))"
      by (simp add: t l)
  qed
  from p(1,2,3) d le valid A fm show ?thesis by auto
qed

text \<open>The invariant on the run above.\<close>

theorem match_examples_output_invariant_witness:
  "match_examples example_lng_conversion example_cnn example_ships = Inr ([0, 1, 2], [2, 0, 3])
   \<and> length [0, 1, 2 :: nat] = length [2, 0, 3 :: int]
   \<and> length [0, 1, 2 :: nat] \<le> length (p_init_times example_cnn)
   \<and> sorted_wrt (<) [0, 1, 2 :: nat]
   \<and> (\<exists>A. read_arrays example_lng_conversion example_cnn example_ships = Inr A
         \<and> find_match A ([0, 1, 2] ! 0) = Inr (Some (nat ([2, 0, 3] ! 0))))"
  using match_examples_output_invariant [OF example_run] example_run
  by auto

section \<open>Grid points and cell edges\<close>

lemma zip_butlast_tl:
  "zip (butlast g) (tl g) = map (\<lambda>k. (g ! k, g ! Suc k)) [0..<length g - 1]"
  by (rule nth_equalityI) (simp_all add: nth_butlast nth_tl)









section \<open>Contour bounds\<close>







section \<open>The search for one file\<close>

lemma take_strip_suffix:
  "take (length (a @ b @ c @ d @ e) - length e) (a @ b @ c @ d @ e) = a @ b @ c @ d"
  by simp

text \<open>The path that is tried first and the path of the other format.\<close>

lemma find_file_zipped:
  assumes "parse_cyclone_id cyclone_id_string = Inr y"
  shows "find_file parse_cyclone_id isfile directory_name cyclone_id_string True
           allow_other_format raise_error_if_missing =
         (if isfile (directory_name @ ''/cira_satellite_'' @ cyclone_id_string @ ''.nc'' @ ''.gz'')
          then Inr (directory_name @ ''/cira_satellite_'' @ cyclone_id_string @ ''.nc'' @ ''.gz'')
          else if allow_other_format
          then (if isfile (directory_name @ ''/cira_satellite_'' @ cyclone_id_string @ ''.nc'')
                     \<or> \<not> raise_error_if_missing
                then Inr (directory_name @ ''/cira_satellite_'' @ cyclone_id_string @ ''.nc'')
                else Inl ValueError)
          else if raise_error_if_missing then Inl ValueError
          else Inr (directory_name @ ''/cira_satellite_'' @ cyclone_id_string @ ''.nc'' @ ''.gz''))"
  unfolding find_file_def assms bind_result_def Let_def GZIP_FILE_EXTENSION_def
  by (cases allow_other_format; simp only: if_True if_False take_strip_suffix sum.case simp_thms)
    (cases raise_error_if_missing; simp only: simp_thms if_True if_False if_cancel cong: if_cong)

lemma find_file_unzipped:
  assumes "parse_cyclone_id cyclone_id_string = Inr y"
  shows "find_file parse_cyclone_id isfile directory_name cyclone_id_string False
           allow_other_format raise_error_if_missing =
         (if isfile (directory_name @ ''/cira_satellite_'' @ cyclone_id_string @ ''.nc'')
          then Inr (directory_name @ ''/cira_satellite_'' @ cyclone_id_string @ ''.nc'')
          else if allow_other_format
          then (if isfile (directory_name @ ''/cira_satellite_'' @ cyclone_id_string @ ''.nc'' @ ''.gz'')
                     \<or> \<not> raise_error_if_missing
                then Inr (directory_name @ ''/cira_satellite_'' @ cyclone_id_string @ ''.nc'' @ ''.gz'')
                else Inl ValueError)
          else if raise_error_if_missing then Inl ValueError
          else Inr (directory_name @ ''/cira_satellite_'' @ cyclone_id_string @ ''.nc''))"
  unfolding find_file_def assms bind_result_def Let_def GZIP_FILE_EXTENSION_def
  by (cases allow_other_format;
      simp only: if_True if_False append_Nil2 append_assoc sum.case simp_thms)
    (cases raise_error_if_missing; simp only: simp_thms if_True if_False if_cancel cong: if_cong)

text \<open>
  C5.  For a cyclone ID that \<open>parse_cyclone_id\<close> accepts, \<open>find_file\<close> raises exactly
  when the file of the preferred format is missing, the file of the other format is
  missing too if that format is allowed, and \<open>raise_error_if_missing\<close> is true; what it
  raises is ValueError.  When the files are missing and \<open>raise_error_if_missing\<close> is
  false, it returns the path it looked at last: that of the other format if allowed,
  else that of the preferred format.
\<close>

theorem find_file_raises_iff_missing:
  assumes "parse_cyclone_id cyclone_id_string = Inr y"
    and "stem = directory_name @ ''/cira_satellite_'' @ cyclone_id_string @ ''.nc''"
    and "preferred = (if prefer_zipped then stem @ ''.gz'' else stem)"
    and "other = (if prefer_zipped then stem else stem @ ''.gz'')"
    and "missing \<longleftrightarrow> \<not> isfile preferred \<and> (allow_other_format \<longrightarrow> \<not> isfile other)"
  shows "(find_file parse_cyclone_id isfile directory_name cyclone_id_string prefer_zipped
             allow_other_format raise_error_if_missing = Inl ValueError
            \<longleftrightarrow> missing \<and> raise_error_if_missing)
       \<and> (\<forall>e. find_file parse_cyclone_id isfile directory_name cyclone_id_string prefer_zipped
             allow_other_format raise_error_if_missing = Inl e \<longrightarrow> e = ValueError)
       \<and> (missing \<and> \<not> raise_error_if_missing \<longrightarrow>
            find_file parse_cyclone_id isfile directory_name cyclone_id_string prefer_zipped
              allow_other_format raise_error_if_missing
            = Inr (if allow_other_format then other else preferred))"
proof (cases prefer_zipped)
  case True
  have p: "preferred = directory_name @ ''/cira_satellite_'' @ cyclone_id_string @ ''.nc'' @ ''.gz''"
    and o: "other = directory_name @ ''/cira_satellite_'' @ cyclone_id_string @ ''.nc''"
    using True by (simp_all only: assms(2-4) if_True append_assoc)
  note f = find_file_zipped [of parse_cyclone_id cyclone_id_string y isfile directory_name,
      OF assms(1), folded p o]
  show ?thesis
    using True by (simp add: f assms(5))
next
  case False
  have p: "preferred = directory_name @ ''/cira_satellite_'' @ cyclone_id_string @ ''.nc''"
    and o: "other = directory_name @ ''/cira_satellite_'' @ cyclone_id_string @ ''.nc'' @ ''.gz''"
    using False by (simp_all only: assms(2-4) if_False append_assoc)
  note f = find_file_unzipped [of parse_cyclone_id cyclone_id_string y isfile directory_name,
      OF assms(1), folded p o]
  show ?thesis
    using False by (simp add: f assms(5))
qed

text \<open>A directory that holds no file, and one that holds the unzipped file only.\<close>

theorem find_file_raises_iff_missing_witness:
  "find_file (\<lambda>s. Inr ()) (\<lambda>p. False) ''/data'' ''2005AL12'' True True True = Inl ValueError
   \<and> find_file (\<lambda>s. Inr ()) (\<lambda>p. False) ''/data'' ''2005AL12'' True True False
       = Inr ''/data/cira_satellite_2005AL12.nc''
   \<and> find_file (\<lambda>s. Inr ()) (\<lambda>p. p = ''/data/cira_satellite_2005AL12.nc'') ''/data''
       ''2005AL12'' True True True = Inr ''/data/cira_satellite_2005AL12.nc''"
proof -
  have p: "(\<lambda>s::string. Inr () :: error + unit) ''2005AL12'' = Inr ()" by simp
  have s: "''/data/cira_satellite_2005AL12.nc'' = ''/data'' @ ''/cira_satellite_'' @ ''2005AL12'' @ ''.nc''"
    by simp
  have pr: "''/data/cira_satellite_2005AL12.nc.gz''
      = (if True then ''/data/cira_satellite_2005AL12.nc'' @ ''.gz''
         else ''/data/cira_satellite_2005AL12.nc'')"
    by simp
  have ot: "''/data/cira_satellite_2005AL12.nc''
      = (if True then ''/data/cira_satellite_2005AL12.nc''
         else ''/data/cira_satellite_2005AL12.nc'' @ ''.gz'')"
    by simp
  have m1: "True \<longleftrightarrow> \<not> (\<lambda>p::string. False) ''/data/cira_satellite_2005AL12.nc.gz''
      \<and> (True \<longrightarrow> \<not> (\<lambda>p::string. False) ''/data/cira_satellite_2005AL12.nc'')"
    by simp
  have m2: "False \<longleftrightarrow> \<not> (\<lambda>p. p = ''/data/cira_satellite_2005AL12.nc'')
        ''/data/cira_satellite_2005AL12.nc.gz''
      \<and> (True \<longrightarrow> \<not> (\<lambda>p. p = ''/data/cira_satellite_2005AL12.nc'')
        ''/data/cira_satellite_2005AL12.nc'')"
    by simp
  note a = find_file_raises_iff_missing [where parse_cyclone_id = "\<lambda>s. Inr ()"
      and cyclone_id_string = "''2005AL12''" and y = "()" and isfile = "\<lambda>p. False"
      and raise_error_if_missing = True, OF p s pr ot m1]
  note b = find_file_raises_iff_missing [where parse_cyclone_id = "\<lambda>s. Inr ()"
      and cyclone_id_string = "''2005AL12''" and y = "()" and isfile = "\<lambda>p. False"
      and raise_error_if_missing = False, OF p s pr ot m1]
  note c = find_file_raises_iff_missing [where parse_cyclone_id = "\<lambda>s. Inr ()"
      and cyclone_id_string = "''2005AL12''" and y = "()"
      and isfile = "\<lambda>p. p = ''/data/cira_satellite_2005AL12.nc''"
      and raise_error_if_missing = True, OF p s pr ot m2]
  have "find_file (\<lambda>s. Inr ()) (\<lambda>p. p = ''/data/cira_satellite_2005AL12.nc'') ''/data''
       ''2005AL12'' True True True = Inr ''/data/cira_satellite_2005AL12.nc''"
    by (simp add: find_file_def bind_result_def GZIP_FILE_EXTENSION_def)
  with a b c show ?thesis by simp
qed

section \<open>The search for all cyclones\<close>

lemma collect_cyclone_ids_eq:
  "collect_cyclone_ids parse_cyclone_id names ids =
     ids @ concat (map (\<lambda>n. case file_name_to_cyclone_id parse_cyclone_id n of
                               Inl e \<Rightarrow> [] | Inr c \<Rightarrow> [c]) names)"
  by (induction names arbitrary: ids) (auto split: sum.splits)

lemma set_collect_cyclone_ids:
  "set (collect_cyclone_ids parse_cyclone_id names []) =
     {c. \<exists>n\<in>set names. file_name_to_cyclone_id parse_cyclone_id n = Inr c}"
  unfolding collect_cyclone_ids_eq by (auto split: sum.splits)

lemma find_cyclones_eq:
  "find_cyclones parse_cyclone_id glob directory_name raise_error_if_all_missing =
     (let ids = sort (remdups (collect_cyclone_ids parse_cyclone_id
                                 (matching_files glob directory_name) []))
      in if raise_error_if_all_missing \<and> ids = [] then Inl ValueError else Inr ids)"
  unfolding find_cyclones_def matching_files_def Let_def GZIP_FILE_EXTENSION_def
  by (simp only: append_assoc length_0_conv)

lemma example_find_cyclones:
  "find_cyclones example_parse_cyclone_id example_glob ''/data'' True = Inr [''2005AL12'']"
  by (simp add: find_cyclones_def file_name_to_cyclone_id_def path_tail_def split_first_def
      split_last_def bind_result_def CYCLONE_ID_REGEX_def GZIP_FILE_EXTENSION_def
      example_parse_cyclone_id_def example_glob_def)

text \<open>
  C7, as stated, fails: a file that matches the pattern and whose cyclone ID the parser
  rejects raises nothing; it is skipped, and the ID of the other file is returned.
\<close>

theorem find_cyclones_eager_counterexample:
  "file_name_to_cyclone_id example_parse_cyclone_id ''/data/cira_satellite_2005XX01.nc''
     = Inl ValueError
   \<and> ''/data/cira_satellite_2005XX01.nc''
       \<in> set (example_glob (''/data'' @ ''/cira_satellite_'' @ CYCLONE_ID_REGEX @ ''.nc''))
   \<and> find_cyclones example_parse_cyclone_id example_glob ''/data'' True = Inr [''2005AL12'']"
  by (simp add: example_find_cyclones file_name_to_cyclone_id_def path_tail_def split_first_def
      split_last_def bind_result_def example_parse_cyclone_id_def example_glob_def)

text \<open>
  C7, amended.  Inside \<open>find_cyclones\<close> a file whose cyclone ID cannot be parsed is
  skipped without an error.  The function returns the sorted IDs, without duplicates, of
  the matching files whose ID parses; it raises exactly when there is no such file and
  \<open>raise_error_if_all_missing\<close> is true, and what it raises is ValueError.
\<close>

theorem find_cyclones_skips_unparsable:
  "(find_cyclones parse_cyclone_id glob directory_name raise_error_if_all_missing
      = Inl ValueError
     \<longleftrightarrow> raise_error_if_all_missing
       \<and> (\<forall>n\<in>set (matching_files glob directory_name).
             \<exists>e. file_name_to_cyclone_id parse_cyclone_id n = Inl e))
   \<and> (\<forall>e. find_cyclones parse_cyclone_id glob directory_name raise_error_if_all_missing
             = Inl e \<longrightarrow> e = ValueError)
   \<and> (\<forall>ids. find_cyclones parse_cyclone_id glob directory_name raise_error_if_all_missing
             = Inr ids
         \<longrightarrow> sorted ids \<and> distinct ids
           \<and> set ids = {c. \<exists>n\<in>set (matching_files glob directory_name).
                              file_name_to_cyclone_id parse_cyclone_id n = Inr c})"
proof -
  define names where "names = matching_files glob directory_name"
  define ids where "ids = sort (remdups (collect_cyclone_ids parse_cyclone_id names []))"
  have f: "find_cyclones parse_cyclone_id glob directory_name raise_error_if_all_missing
      = (if raise_error_if_all_missing \<and> ids = [] then Inl ValueError else Inr ids)"
    unfolding find_cyclones_eq Let_def ids_def names_def ..
  have s: "set ids = {c. \<exists>n\<in>set names. file_name_to_cyclone_id parse_cyclone_id n = Inr c}"
    by (simp add: ids_def set_collect_cyclone_ids)
  have "ids = [] \<longleftrightarrow> set ids = {}" by simp
  also have "\<dots> \<longleftrightarrow> (\<forall>n\<in>set names. \<exists>e. file_name_to_cyclone_id parse_cyclone_id n = Inl e)"
    unfolding s
  proof
    assume a: "{c. \<exists>n\<in>set names. file_name_to_cyclone_id parse_cyclone_id n = Inr c} = {}"
    show "\<forall>n\<in>set names. \<exists>e. file_name_to_cyclone_id parse_cyclone_id n = Inl e"
    proof
      fix n assume "n \<in> set names"
      with a show "\<exists>e. file_name_to_cyclone_id parse_cyclone_id n = Inl e"
        by (cases "file_name_to_cyclone_id parse_cyclone_id n") auto
    qed
  next
    assume "\<forall>n\<in>set names. \<exists>e. file_name_to_cyclone_id parse_cyclone_id n = Inl e"
    then show "{c. \<exists>n\<in>set names. file_name_to_cyclone_id parse_cyclone_id n = Inr c} = {}"
      by fastforce
  qed
  finally have e: "ids = [] \<longleftrightarrow>
      (\<forall>n\<in>set names. \<exists>e. file_name_to_cyclone_id parse_cyclone_id n = Inl e)" .
  have d: "sorted ids" "distinct ids" by (simp_all add: ids_def)
  show ?thesis
    unfolding f names_def [symmetric] using e s d by auto
qed

text \<open>The directory of the counterexample, and an empty directory.\<close>

theorem find_cyclones_skips_unparsable_witness:
  "find_cyclones example_parse_cyclone_id example_glob ''/data'' True = Inr [''2005AL12'']
   \<and> find_cyclones example_parse_cyclone_id empty_glob ''/data'' True = Inl ValueError
   \<and> find_cyclones example_parse_cyclone_id empty_glob ''/data'' False = Inr []"
proof -
  have b: "find_cyclones example_parse_cyclone_id empty_glob ''/data'' False = Inr []"
    by (simp add: find_cyclones_def empty_glob_def)
  from find_cyclones_skips_unparsable [of example_parse_cyclone_id empty_glob "''/data''" True]
    example_find_cyclones b
  show ?thesis by (simp add: matching_files_def empty_glob_def)
qed

section \<open>The input checks of the grid plot\<close>

lemma numpy_diff_eq: "numpy_diff xs = map (\<lambda>k. xs ! Suc k - xs ! k) [0..<length xs - 1]"
  unfolding numpy_diff_def zip_butlast_tl by simp

lemma diff_positive_iff_increasing:
  "list_all (\<lambda>d. d > 0) (numpy_diff xs) \<longleftrightarrow> sorted_wrt (<) (xs :: real list)"
proof -
  have "list_all (\<lambda>d. d > 0) (numpy_diff xs) \<longleftrightarrow> (\<forall>k. Suc k < length xs \<longrightarrow> xs ! k < xs ! Suc k)"
    unfolding numpy_diff_eq by (auto simp: list_all_iff)
  then show ?thesis by (simp add: sorted_wrt_iff_nth_Suc_transp)
qed

lemma assert_is_greater_numpy_array_diff:
  "assert_is_greater_numpy_array (numpy_diff xs) 0 = Inr () \<longleftrightarrow> sorted_wrt (<) xs"
  by (simp add: assert_is_greater_numpy_array_def diff_positive_iff_increasing)

lemma assert_is_numpy_array_num:
  "assert_is_numpy_array a (Some n) None = Inr () \<longleftrightarrow> length (shape a) = n"
  by (simp add: assert_is_numpy_array_def)

lemma assert_is_numpy_array_exact:
  "assert_is_numpy_array a None (Some dims) = Inr () \<longleftrightarrow> shape a = dims"
  by (simp add: assert_is_numpy_array_def)

lemma len_Inr: "len a = Inr n \<longleftrightarrow> (\<exists>ns. shape a = n # ns)"
  by (auto simp: len_def split: list.splits)

lemma length_one_iff: "length xs = 1 \<longleftrightarrow> (\<exists>x. xs = [x])"
  by (cases xs) auto

text \<open>When the input checks of \<open>plot_2d_grid_regular\<close> pass, and with what.\<close>

lemma plot_2d_grid_regular_checks_Inr:
  "plot_2d_grid_regular_checks lc brightness_temp_matrix_kelvins latitudes_deg_n longitudes_deg_e
     = Inr r \<longleftrightarrow>
   (\<exists>num_rows num_columns lngs.
      shape latitudes_deg_n = [num_rows]
    \<and> list_all (\<lambda>x. - 90 \<le> x \<and> x \<le> 90) (flat latitudes_deg_n)
    \<and> sorted_wrt (<) (flat latitudes_deg_n)
    \<and> shape longitudes_deg_e = [num_columns]
    \<and> map_result (convert_lng_negative_in_west lc) (flat longitudes_deg_e) = Inr lngs
    \<and> sorted_wrt (<) lngs
    \<and> shape brightness_temp_matrix_kelvins = [num_rows, num_columns]
    \<and> list_all (\<lambda>x. x > 0) (flat brightness_temp_matrix_kelvins)
    \<and> r = NDArray [num_columns] lngs)"
  (is "?L \<longleftrightarrow> ?R")
proof
  assume ?L
  then obtain lngs num_rows num_columns where
    c: "assert_is_numpy_array latitudes_deg_n (Some 1) None = Inr ()"
      "assert_is_valid_lat_numpy_array (flat latitudes_deg_n) = Inr ()"
      "assert_is_greater_numpy_array (numpy_diff (flat latitudes_deg_n)) 0 = Inr ()"
      "assert_is_numpy_array longitudes_deg_e (Some 1) None = Inr ()"
      "map_result (convert_lng_negative_in_west lc) (flat longitudes_deg_e) = Inr lngs"
      "assert_is_greater_numpy_array (numpy_diff lngs) 0 = Inr ()"
      "len latitudes_deg_n = Inr num_rows"
      "len (NDArray (shape longitudes_deg_e) lngs) = Inr num_columns"
      "assert_is_numpy_array brightness_temp_matrix_kelvins None (Some [num_rows, num_columns])
         = Inr ()"
      "assert_is_greater_numpy_array (flat brightness_temp_matrix_kelvins) 0 = Inr ()"
      "r = NDArray (shape longitudes_deg_e) lngs"
    unfolding plot_2d_grid_regular_checks_def Let_def
    by (auto simp: bind_result_Inr_iff)
  from c(1,7) have s1: "shape latitudes_deg_n = [num_rows]"
    by (auto simp: assert_is_numpy_array_num len_Inr length_one_iff)
  from c(4,8) have s2: "shape longitudes_deg_e = [num_columns]"
    by (auto simp: assert_is_numpy_array_num len_Inr length_one_iff)
  from c(2) have v: "list_all (\<lambda>x. - 90 \<le> x \<and> x \<le> 90) (flat latitudes_deg_n)"
    by (simp add: assert_is_valid_lat_numpy_array_def split: if_splits)
  from c(10) have p: "list_all (\<lambda>x. x > 0) (flat brightness_temp_matrix_kelvins)"
    by (simp add: assert_is_greater_numpy_array_def split: if_splits)
  from s1 s2 v p c(3,5,6,9,11) show ?R
    by (simp add: assert_is_greater_numpy_array_diff assert_is_numpy_array_exact)
next
  assume ?R
  then obtain num_rows num_columns lngs where
    r: "shape latitudes_deg_n = [num_rows]"
      "list_all (\<lambda>x. - 90 \<le> x \<and> x \<le> 90) (flat latitudes_deg_n)"
      "sorted_wrt (<) (flat latitudes_deg_n)"
      "shape longitudes_deg_e = [num_columns]"
      "map_result (convert_lng_negative_in_west lc) (flat longitudes_deg_e) = Inr lngs"
      "sorted_wrt (<) lngs"
      "shape brightness_temp_matrix_kelvins = [num_rows, num_columns]"
      "list_all (\<lambda>x. x > 0) (flat brightness_temp_matrix_kelvins)"
      "r = NDArray [num_columns] lngs"
    by blast
  have d: "assert_is_greater_numpy_array (numpy_diff (flat latitudes_deg_n)) 0 = Inr ()"
    "assert_is_greater_numpy_array (numpy_diff lngs) 0 = Inr ()"
    using r(3,6) by (simp_all add: assert_is_greater_numpy_array_diff)
  show ?L
    unfolding plot_2d_grid_regular_checks_def Let_def
    using r(1,2,4,5,7,8,9) d
    by (simp add: bind_result_def assert_is_numpy_array_def assert_is_valid_lat_numpy_array_def
        len_def assert_is_greater_numpy_array_def [of "flat brightness_temp_matrix_kelvins"])
qed

text \<open>
  C6.  The input checks of \<open>plot_2d_grid_regular\<close> raise an error unless the latitude and
  longitude arrays are one-dimensional, of lengths \<open>M\<close> and \<open>N\<close>, the matrix of brightness
  temperatures is exactly \<open>M\<close>-by-\<open>N\<close>, the latitudes are strictly increasing and so are
  the longitudes after conversion to the negative-in-west convention.  Under these
  conditions none of the checks of shape and of order raises, and the checks as a whole
  pass once the values are in range as well (latitudes between -90 and 90, temperatures
  above zero).
\<close>

theorem plot_2d_grid_regular_shape_checks:
  "(\<not> (\<exists>num_rows num_columns lngs.
          shape latitudes_deg_n = [num_rows]
        \<and> shape longitudes_deg_e = [num_columns]
        \<and> shape brightness_temp_matrix_kelvins = [num_rows, num_columns]
        \<and> sorted_wrt (<) (flat latitudes_deg_n)
        \<and> map_result (convert_lng_negative_in_west lc) (flat longitudes_deg_e) = Inr lngs
        \<and> sorted_wrt (<) lngs)
     \<longrightarrow> (\<exists>e. plot_2d_grid_regular_checks lc brightness_temp_matrix_kelvins
                 latitudes_deg_n longitudes_deg_e = Inl e))
   \<and> (shape latitudes_deg_n = [M]
      \<and> shape longitudes_deg_e = [N]
      \<and> shape brightness_temp_matrix_kelvins = [M, N]
      \<and> sorted_wrt (<) (flat latitudes_deg_n)
      \<and> map_result (convert_lng_negative_in_west lc) (flat longitudes_deg_e) = Inr converted
      \<and> sorted_wrt (<) converted
     \<longrightarrow> assert_is_numpy_array latitudes_deg_n (Some 1) None = Inr ()
       \<and> assert_is_greater_numpy_array (numpy_diff (flat latitudes_deg_n)) 0 = Inr ()
       \<and> assert_is_numpy_array longitudes_deg_e (Some 1) None = Inr ()
       \<and> assert_is_greater_numpy_array (numpy_diff converted) 0 = Inr ()
       \<and> assert_is_numpy_array brightness_temp_matrix_kelvins None (Some [M, N]) = Inr ()
       \<and> (list_all (\<lambda>x. - 90 \<le> x \<and> x \<le> 90) (flat latitudes_deg_n)
          \<and> list_all (\<lambda>x. x > 0) (flat brightness_temp_matrix_kelvins)
          \<longrightarrow> plot_2d_grid_regular_checks lc brightness_temp_matrix_kelvins
                latitudes_deg_n longitudes_deg_e = Inr (NDArray [N] converted)))"
proof (intro conjI impI)
  assume n: "\<not> (\<exists>num_rows num_columns lngs.
          shape latitudes_deg_n = [num_rows]
        \<and> shape longitudes_deg_e = [num_columns]
        \<and> shape brightness_temp_matrix_kelvins = [num_rows, num_columns]
        \<and> sorted_wrt (<) (flat latitudes_deg_n)
        \<and> map_result (convert_lng_negative_in_west lc) (flat longitudes_deg_e) = Inr lngs
        \<and> sorted_wrt (<) lngs)"
  show "\<exists>e. plot_2d_grid_regular_checks lc brightness_temp_matrix_kelvins
                 latitudes_deg_n longitudes_deg_e = Inl e"
  proof (cases "plot_2d_grid_regular_checks lc brightness_temp_matrix_kelvins
                 latitudes_deg_n longitudes_deg_e")
    case (Inl e)
    then show ?thesis by blast
  next
    case (Inr r)
    then have False
      using n unfolding plot_2d_grid_regular_checks_Inr by blast
    then show ?thesis ..
  qed
next
  assume a: "shape latitudes_deg_n = [M]
      \<and> shape longitudes_deg_e = [N]
      \<and> shape brightness_temp_matrix_kelvins = [M, N]
      \<and> sorted_wrt (<) (flat latitudes_deg_n)
      \<and> map_result (convert_lng_negative_in_west lc) (flat longitudes_deg_e) = Inr converted
      \<and> sorted_wrt (<) converted"
  show "assert_is_numpy_array latitudes_deg_n (Some 1) None = Inr ()"
    using a by (simp add: assert_is_numpy_array_num)
  show "assert_is_numpy_array longitudes_deg_e (Some 1) None = Inr ()"
    using a by (simp add: assert_is_numpy_array_num)
  show "assert_is_numpy_array brightness_temp_matrix_kelvins None (Some [M, N]) = Inr ()"
    using a by (simp add: assert_is_numpy_array_exact)
  show "assert_is_greater_numpy_array (numpy_diff (flat latitudes_deg_n)) 0 = Inr ()"
    using a by (simp add: assert_is_greater_numpy_array_diff)
  show "assert_is_greater_numpy_array (numpy_diff converted) 0 = Inr ()"
    using a by (simp add: assert_is_greater_numpy_array_diff)
  assume "list_all (\<lambda>x. - 90 \<le> x \<and> x \<le> 90) (flat latitudes_deg_n)
          \<and> list_all (\<lambda>x. x > 0) (flat brightness_temp_matrix_kelvins)"
  with a show "plot_2d_grid_regular_checks lc brightness_temp_matrix_kelvins
                latitudes_deg_n longitudes_deg_e = Inr (NDArray [N] converted)"
    unfolding plot_2d_grid_regular_checks_Inr by blast
qed

lemma example_convert_longitudes:
  "map_result (convert_lng_negative_in_west example_lng_conversion) (flat example_longitudes)
     = Inr [- 60, - 59, - 58]"
  by (simp add: example_lng_conversion_def example_longitudes_def bind_result_def)

text \<open>A 2-by-3 matrix on a grid of 2 latitudes and 3 longitudes passes; a 3-by-2 matrix on
  the same grid raises.\<close>

theorem plot_2d_grid_regular_shape_checks_witness:
  "plot_2d_grid_regular_checks example_lng_conversion example_matrix example_latitudes
       example_longitudes = Inr (NDArray [3] [- 60, - 59, - 58])
   \<and> (\<exists>e. plot_2d_grid_regular_checks example_lng_conversion
            (NDArray [3, 2] [200, 210, 220, 230, 240, 250]) example_latitudes
            example_longitudes = Inl e)"
proof -
  note t = plot_2d_grid_regular_shape_checks [of example_latitudes example_longitudes
      example_matrix example_lng_conversion 2 3 "[- 60, - 59, - 58]"]
  note u = plot_2d_grid_regular_shape_checks [of example_latitudes example_longitudes
      "NDArray [3, 2] [200, 210, 220, 230, 240, 250]" example_lng_conversion 2 3
      "[- 60, - 59, - 58]"]
  have a: "plot_2d_grid_regular_checks example_lng_conversion example_matrix example_latitudes
       example_longitudes = Inr (NDArray [3] [- 60, - 59, - 58])"
    using t example_convert_longitudes
    by (simp add: example_matrix_def example_latitudes_def example_longitudes_def)
  have b: "\<exists>e. plot_2d_grid_regular_checks example_lng_conversion
            (NDArray [3, 2] [200, 210, 220, 230, 240, 250]) example_latitudes
            example_longitudes = Inl e"
    using u by (simp add: example_latitudes_def example_longitudes_def)
  from a b show ?thesis ..
qed

end
